theory Spec2Isabelle
  imports Complex_Main
begin

section \<open>Token estimator (backend/server.js)\<close>

text \<open>
  \<^verbatim>\<open>function countTokens(text) { return Math.ceil(text.length / 4); }\<close>
  A JavaScript string is modelled as a \<^typ>\<open>string\<close>, one \<^typ>\<open>char\<close> per code unit, so
  \<open>text.length\<close> is \<^const>\<open>length\<close>. The division is the real one and \<open>Math.ceil\<close> the ceiling.
\<close>

definition countTokens :: "string \<Rightarrow> int" where
  "countTokens text = \<lceil>real (length text) / 4\<rceil>"

section \<open>Line-based chunker (backend/server.js)\<close>

text \<open>
  \<open>sourceCode.split('\n')\<close>: the pieces between line feeds; the empty string gives one
  empty piece, and a trailing line feed gives a trailing empty piece. The result is never
  empty, so the last branch of the \<open>case\<close> is never taken.
\<close>

abbreviation LF :: char where
  "LF \<equiv> CHR 0x0A"

fun split_lines :: "string \<Rightarrow> string list" where
  "split_lines [] = [[]]"
| "split_lines (c # cs) =
     (if c = LF then [] # split_lines cs
      else (case split_lines cs of l # ls \<Rightarrow> (c # l) # ls | [] \<Rightarrow> [[c]]))"

text \<open>
  The body of \<open>for (const line of lines)\<close> in \<open>chunkSourceCode\<close>, as a recursion over the
  remaining lines with the two mutable variables \<open>chunks\<close> and \<open>currentChunk\<close> passed along.
  A JavaScript string is truthy exactly when it is not empty.
\<close>

fun chunk_lines :: "int \<Rightarrow> string list \<Rightarrow> string list \<Rightarrow> string \<Rightarrow> string list \<times> string" where
  "chunk_lines maxTokens [] chunks currentChunk = (chunks, currentChunk)"
| "chunk_lines maxTokens (line # lines) chunks currentChunk =
     (let lineTokens = countTokens line;
          currentChunkTokens = countTokens currentChunk
      in if currentChunkTokens + lineTokens > maxTokens
         then chunk_lines maxTokens lines (chunks @ [currentChunk]) line
         else chunk_lines maxTokens lines chunks
                (currentChunk @ (if currentChunk \<noteq> [] then [LF] else []) @ line))"

definition chunkSourceCode :: "string \<Rightarrow> int \<Rightarrow> string list" where
  "chunkSourceCode sourceCode maxTokens =
     (case chunk_lines maxTokens (split_lines sourceCode) [] [] of
        (chunks, currentChunk) \<Rightarrow>
          if currentChunk \<noteq> [] then chunks @ [currentChunk] else chunks)"

section \<open>Token estimator with a tokenizer (the recursive backend, src/unnamed/part_002)\<close>

text \<open>
  \<^verbatim>\<open>
  function countTokens(text) {
    try { if (tiktoken) { return tiktoken.encode(text).length; } }
    catch (error) { console.error('Tiktoken error:', error.message); }
    return Math.ceil(text.length / 4);
  }
  \<close>
  The global \<open>tiktoken\<close> is \<open>undefined\<close> when its construction failed: \<^const>\<open>None\<close>.
  When present, its \<open>encode\<close> either returns the token list or throws: \<^const>\<open>None\<close> again.
\<close>

type_synonym tokenizer = "(string \<Rightarrow> nat list option) option"

definition countTokens_tiktoken :: "tokenizer \<Rightarrow> string \<Rightarrow> int" where
  "countTokens_tiktoken tiktoken text =
     (case tiktoken of
        Some encode \<Rightarrow>
          (case encode text of
             Some tokens \<Rightarrow> int (length tokens)
           | None \<Rightarrow> \<lceil>real (length text) / 4\<rceil>)
      | None \<Rightarrow> \<lceil>real (length text) / 4\<rceil>)"

section \<open>Generation call with retry and exponential backoff\<close>

text \<open>
  The error object a failed call throws, by the fields that matter here: \<open>error.status\<close>,
  where the client created by \<open>new OpenAI(...)\<close> puts the HTTP status of a failed request,
  and \<open>error.response.status\<close>, which exists only on an error that has a \<open>response\<close>
  field (the client's errors have none). The retry branch is taken exactly when
  \<open>error.response && error.response.status === 429\<close>.
\<close>

record api_error =
  status :: "int option"
  response_status :: "int option"
  message :: string

datatype 'r api_result = Returned 'r | Threw api_error

text \<open>
  What \<open>callOpenAIWithRetry\<close> throws: the error of a call, rethrown as it is, or
  \<open>new Error('Max retries reached for OpenAI API call')\<close>.
\<close>

datatype gen_error = Rethrown api_error | MaxRetriesReached

text \<open>
  The observable effects of one run: how many times \<open>openai.chat.completions.create\<close> was
  called, and the delays passed to \<open>setTimeout\<close>, in order.
\<close>

record retry_trace =
  calls :: nat
  waits :: "int list"

text \<open>
  \<open>for (let attempt = 0; attempt < retries; attempt++)\<close>. The service is a function from the
  attempt number to what the call of that attempt does.
\<close>

function retry_loop ::
  "(nat \<Rightarrow> 'r api_result) \<Rightarrow> int \<Rightarrow> int \<Rightarrow> nat \<Rightarrow> retry_trace \<Rightarrow> (gen_error + 'r) \<times> retry_trace" where
  "retry_loop create retries delay attempt tr =
     (if int attempt < retries then
        (case create attempt of
           Returned response \<Rightarrow> (Inr response, tr\<lparr>calls := calls tr + 1\<rparr>)
         | Threw error \<Rightarrow>
             if response_status error = Some 429 then
               (let waitTime = delay * 2 ^ attempt
                in retry_loop create retries delay (attempt + 1)
                     (tr\<lparr>calls := calls tr + 1, waits := waits tr @ [waitTime]\<rparr>))
             else (Inl (Rethrown error), tr\<lparr>calls := calls tr + 1\<rparr>))
      else (Inl MaxRetriesReached, tr))"
  by pat_completeness auto
termination
  by (relation "measure (\<lambda>(create, retries, delay, attempt, tr). nat (retries - int attempt))") auto

declare retry_loop.simps [simp del]

definition callOpenAIWithRetry ::
  "(nat \<Rightarrow> 'r api_result) \<Rightarrow> int \<Rightarrow> int \<Rightarrow> (gen_error + 'r) \<times> retry_trace" where
  "callOpenAIWithRetry create retries delay =
     retry_loop create retries delay 0 \<lparr>calls = 0, waits = []\<rparr>"

definition rate_limited :: "'r api_result \<Rightarrow> bool" where
  "rate_limited r = (case r of Returned _ \<Rightarrow> False | Threw error \<Rightarrow> response_status error = Some 429)"

section \<open>The remote repository\<close>

text \<open>
  What \<open>axios.get(item.download_url).then(res => res.data)\<close> hands to the code. The
  client parses a body that is valid JSON, so \<open>res.data\<close> is the body itself, a string, only
  when the body does not parse: \<open>Text body\<close>. Otherwise it is the parsed value, kept here
  beside the body it came from: \<open>Json body value\<close>. Of a parsed value the code reads its
  \<open>length\<close> and its rendering in a template literal, so a value is given by what decides
  these two: a string; an array, by the number of its elements and its rendering (its
  elements joined by commas); \<open>null\<close>; a number or a boolean, by its rendering; an object,
  rendered \<open>[object Object]\<close>, by whether its \<open>length\<close> member, if it has one, compares
  greater than 500000.
\<close>

datatype json_value =
    JString string
  | JArray nat string
  | JNull
  | JScalar string
  | JObject bool

datatype fetched = Text string | Json string json_value

text \<open>
  The test \<open>fileContent.length > 500000\<close>: reading \<open>length\<close> of \<open>null\<close> throws a
  TypeError; a number or a boolean has no \<open>length\<close>, and \<open>undefined > 500000\<close> is false.
\<close>

fun exceeds_limit :: "fetched \<Rightarrow> string + bool" where
  "exceeds_limit (Text s) = Inr (length s > 500000)"
| "exceeds_limit (Json body (JString s)) = Inr (length s > 500000)"
| "exceeds_limit (Json body (JArray n rendering)) = Inr (n > 500000)"
| "exceeds_limit (Json body JNull) = Inl ''Cannot read properties of null''"
| "exceeds_limit (Json body (JScalar rendering)) = Inr False"
| "exceeds_limit (Json body (JObject exceeds)) = Inr exceeds"

text \<open>The value inside a template literal, \<open>`${fileContent}`\<close>.\<close>

fun rendered :: "fetched \<Rightarrow> string" where
  "rendered (Text s) = s"
| "rendered (Json body (JString s)) = s"
| "rendered (Json body (JArray n rendering)) = rendering"
| "rendered (Json body JNull) = ''null''"
| "rendered (Json body (JScalar rendering)) = rendering"
| "rendered (Json body (JObject exceeds)) = ''[object Object]''"

text \<open>The text of the file as the host serves it.\<close>

fun body_text :: "fetched \<Rightarrow> string" where
  "body_text (Text s) = s"
| "body_text (Json body v) = body"

text \<open>
  What the contents API and the raw-content host answer, as a tree. An entry of a listing
  has a \<open>type\<close> (\<open>'file'\<close>, \<open>'dir'\<close>, or something else such as a symlink or a submodule)
  and a \<open>path\<close>. A file entry carries what its \<open>download_url\<close> leads to: \<^const>\<open>None\<close>
  when the field is missing, otherwise the outcome of the download, the message of the
  error thrown (\<^const>\<open>Inl\<close>) or the data received (\<^const>\<open>Inr\<close>). A directory entry carries
  the outcome of listing it.
\<close>

datatype node =
    File string "(string + fetched) option"
  | Dir string listing
  | Other string
and listing = ListError string | Listing "node list"

text \<open>
  The lines written to the console that the properties below speak about: the warning
  about a skipped file, with its path, and the error of a worker, with the worker's
  directory and the message.
\<close>

datatype log_entry =
    SkippedLargeFile string
  | WorkerError string string

text \<open>\<open>s.endsWith(ext)\<close>\<close>

definition endsWith :: "string \<Rightarrow> string \<Rightarrow> bool" where
  "endsWith s ext = (length ext \<le> length s \<and> drop (length s - length ext) s = ext)"

text \<open>\<open>extensions.some(ext => item.path.endsWith(ext))\<close>\<close>

definition accepted :: "string list \<Rightarrow> string \<Rightarrow> bool" where
  "accepted extensions path = list_ex (endsWith path) extensions"

definition default_extensions :: "string list" where
  "default_extensions = [''.js'', ''.py'', ''.ts'', ''.md'']"

text \<open>The template literal \<open>`\n=== File: ${item.path} ===\n${fileContent}`\<close>.\<close>

definition fileText :: "string \<Rightarrow> string \<Rightarrow> string" where
  "fileText path fileContent = [LF] @ ''=== File: '' @ path @ '' ==='' @ [LF] @ fileContent"

section \<open>Recursive fetch that chunks while fetching (the recursive backend, src/unnamed/part_002)\<close>

text \<open>
  The test that both loops of the recursive \<open>fetchAllRepoContents\<close> apply to a piece of text,
  a file's \<open>fileText\<close> or a chunk of a subdirectory:
  \<^verbatim>\<open>
  if (countTokens(currentChunk + fileText) > 25000) {
    chunks.push(currentChunk); currentChunk = fileText;
  } else { currentChunk += fileText; }
  \<close>
  The source writes the literal 25000; it is the parameter \<open>budget\<close> here, so that the
  properties are stated for every budget.
\<close>

definition add_block ::
  "tokenizer \<Rightarrow> int \<Rightarrow> string \<Rightarrow> string list \<times> string \<Rightarrow> string list \<times> string" where
  "add_block tk budget block st =
     (case st of (chunks, currentChunk) \<Rightarrow>
        if countTokens_tiktoken tk (currentChunk @ block) > budget
        then (chunks @ [currentChunk], block)
        else (chunks, currentChunk @ block))"

text \<open>\<open>for (const dirChunk of dirChunks)\<close>\<close>

fun add_dirChunks ::
  "tokenizer \<Rightarrow> int \<Rightarrow> string list \<Rightarrow> string list \<times> string \<Rightarrow> string list \<times> string" where
  "add_dirChunks tk budget [] st = st"
| "add_dirChunks tk budget (dirChunk # dirChunks) st =
     add_dirChunks tk budget dirChunks (add_block tk budget dirChunk st)"

text \<open>
  \<open>walk_items\<close> is the loop \<open>for (const item of response.data)\<close> with its variables
  \<open>chunks\<close> and \<open>currentChunk\<close> and the console; \<open>fetch_chunks\<close> is the function around it,
  applied to the outcome of the listing request. A rejected request rejects the whole call.
\<close>

fun walk_items ::
  "tokenizer \<Rightarrow> string list \<Rightarrow> int \<Rightarrow> node list \<Rightarrow> string list \<times> string \<times> log_entry list
     \<Rightarrow> string + (string list \<times> string \<times> log_entry list)"
and fetch_chunks ::
  "tokenizer \<Rightarrow> string list \<Rightarrow> int \<Rightarrow> listing \<Rightarrow> log_entry list
     \<Rightarrow> string + (string list \<times> log_entry list)" where
  "walk_items tk exts budget [] st = Inr st"
| "walk_items tk exts budget (File path download # items) (chunks, currentChunk, lg) =
     (case download of
        Some fetched \<Rightarrow>
          if accepted exts path then
            (case fetched of
               Inl err \<Rightarrow> Inl err
             | Inr fileContent \<Rightarrow>
                 (case exceeds_limit fileContent of
                    Inl err \<Rightarrow> Inl err
                  | Inr True \<Rightarrow>
                      walk_items tk exts budget items
                        (chunks, currentChunk, lg @ [SkippedLargeFile path])
                  | Inr False \<Rightarrow>
                      (case add_block tk budget (fileText path (rendered fileContent))
                              (chunks, currentChunk) of
                         (chunks', currentChunk') \<Rightarrow>
                           walk_items tk exts budget items (chunks', currentChunk', lg))))
          else walk_items tk exts budget items (chunks, currentChunk, lg)
      | None \<Rightarrow> walk_items tk exts budget items (chunks, currentChunk, lg))"
| "walk_items tk exts budget (Dir path sub # items) (chunks, currentChunk, lg) =
     (case fetch_chunks tk exts budget sub lg of
        Inl err \<Rightarrow> Inl err
      | Inr (dirChunks, lg') \<Rightarrow>
          (case add_dirChunks tk budget dirChunks (chunks, currentChunk) of
             (chunks', currentChunk') \<Rightarrow>
               walk_items tk exts budget items (chunks', currentChunk', lg')))"
| "walk_items tk exts budget (Other path # items) st = walk_items tk exts budget items st"
| "fetch_chunks tk exts budget (ListError err) lg = Inl err"
| "fetch_chunks tk exts budget (Listing items) lg =
     (case walk_items tk exts budget items ([], [], lg) of
        Inl err \<Rightarrow> Inl err
      | Inr (chunks, currentChunk, lg') \<Rightarrow>
          Inr (if currentChunk \<noteq> [] then chunks @ [currentChunk] else chunks, lg'))"

definition fetchAllRepoContents_chunked ::
  "tokenizer \<Rightarrow> string list \<Rightarrow> listing \<Rightarrow> string + (string list \<times> log_entry list)" where
  "fetchAllRepoContents_chunked tk exts rootResponse = fetch_chunks tk exts 25000 rootResponse []"

text \<open>
  The records of a tree as the walker forms them: one \<open>(path, content)\<close> for every file
  entry with a download location and an accepted extension that passes the length test,
  the content being the text the walker holds for the file; in listing order, a
  directory's records where the directory stands in its parent's listing.
\<close>

fun records_items :: "string list \<Rightarrow> node list \<Rightarrow> (string \<times> string) list"
and records_listing :: "string list \<Rightarrow> listing \<Rightarrow> (string \<times> string) list" where
  "records_items exts [] = []"
| "records_items exts (File path download # items) =
     (case download of
        Some (Inr fileContent) \<Rightarrow>
          if accepted exts path \<and> exceeds_limit fileContent = Inr False
          then (path, rendered fileContent) # records_items exts items
          else records_items exts items
      | _ \<Rightarrow> records_items exts items)"
| "records_items exts (Dir path sub # items) =
     records_listing exts sub @ records_items exts items"
| "records_items exts (Other path # items) = records_items exts items"
| "records_listing exts (ListError err) = []"
| "records_listing exts (Listing items) = records_items exts items"

text \<open>
  The FileRecords of a tree as the specification describes them: one \<open>(path, content)\<close>
  for every file entry with a download location and an accepted extension whose text is at
  most 500000 characters long, the content being the raw text of the file; same order.
\<close>

fun file_records_items :: "string list \<Rightarrow> node list \<Rightarrow> (string \<times> string) list"
and file_records_listing :: "string list \<Rightarrow> listing \<Rightarrow> (string \<times> string) list" where
  "file_records_items exts [] = []"
| "file_records_items exts (File path download # items) =
     (case download of
        Some (Inr fileContent) \<Rightarrow>
          if accepted exts path \<and> length (body_text fileContent) \<le> 500000
          then (path, body_text fileContent) # file_records_items exts items
          else file_records_items exts items
      | _ \<Rightarrow> file_records_items exts items)"
| "file_records_items exts (Dir path sub # items) =
     file_records_listing exts sub @ file_records_items exts items"
| "file_records_items exts (Other path # items) = file_records_items exts items"
| "file_records_listing exts (ListError err) = []"
| "file_records_listing exts (Listing items) = file_records_items exts items"

text \<open>
  A tree all of whose downloads hand over the text of the file as it is: no file that is
  downloaded (none with an accepted extension) has a body that parses as JSON.
\<close>

fun text_items :: "string list \<Rightarrow> node list \<Rightarrow> bool"
and text_listing :: "string list \<Rightarrow> listing \<Rightarrow> bool" where
  "text_items exts [] = True"
| "text_items exts (File path (Some (Inr (Json body v))) # items) =
     (\<not> accepted exts path \<and> text_items exts items)"
| "text_items exts (File path download # items) = text_items exts items"
| "text_items exts (Dir path sub # items) = (text_listing exts sub \<and> text_items exts items)"
| "text_items exts (Other path # items) = text_items exts items"
| "text_listing exts (ListError err) = True"
| "text_listing exts (Listing items) = text_items exts items"

text \<open>The blocks of a list of records: each record as the walker writes it.\<close>

definition formatted :: "(string \<times> string) list \<Rightarrow> string list" where
  "formatted records = map (\<lambda>(path, fileContent). fileText path fileContent) records"

section \<open>Worker and coordinator (backend/server.js)\<close>

text \<open>\<open>contents.join('\n')\<close>\<close>

fun join_LF :: "string list \<Rightarrow> string" where
  "join_LF [] = []"
| "join_LF [x] = x"
| "join_LF (x # y # ys) = x @ [LF] @ join_LF (y # ys)"

text \<open>
  \<open>for (const item of items)\<close> in the worker's \<open>fetchDirContents\<close>: only file entries are
  looked at; there is no branch for any other type of entry.
\<close>

fun page_items ::
  "string list \<Rightarrow> node list \<Rightarrow> string list \<times> log_entry list
     \<Rightarrow> string + (string list \<times> log_entry list)" where
  "page_items exts [] st = Inr st"
| "page_items exts (File path download # items) (contents, lg) =
     (case download of
        Some fetched \<Rightarrow>
          if accepted exts path then
            (case fetched of
               Inl err \<Rightarrow> Inl err
             | Inr fileContent \<Rightarrow>
                 (case exceeds_limit fileContent of
                    Inl err \<Rightarrow> Inl err
                  | Inr True \<Rightarrow>
                      page_items exts items (contents, lg @ [SkippedLargeFile path])
                  | Inr False \<Rightarrow>
                      page_items exts items
                        (contents @ [fileText path (rendered fileContent)], lg)))
          else page_items exts items (contents, lg)
      | None \<Rightarrow> page_items exts items (contents, lg))"
| "page_items exts (item # items) st = page_items exts items st"

text \<open>
  \<open>while (true)\<close> over the pages of one directory, \<open>remote page\<close> being the outcome of the
  request for that page. Nothing bounds the number of pages, so the loop runs on fuel:
  \<^const>\<open>None\<close> says that it was still running when the fuel ran out. An answer without
  items (\<open>!items || items.length === 0\<close>) is the empty listing.
\<close>

fun fetch_pages ::
  "nat \<Rightarrow> string list \<Rightarrow> (nat \<Rightarrow> listing) \<Rightarrow> nat \<Rightarrow> string list \<times> log_entry list
     \<Rightarrow> (string + (string list \<times> log_entry list)) option" where
  "fetch_pages 0 exts remote page st = None"
| "fetch_pages (Suc fuel) exts remote page st =
     (case remote page of
        ListError err \<Rightarrow> Some (Inl err)
      | Listing items \<Rightarrow>
          if items = [] then Some (Inr st)
          else (case page_items exts items st of
                  Inl err \<Rightarrow> Some (Inl err)
                | Inr st' \<Rightarrow> fetch_pages fuel exts remote (page + 1) st'))"

text \<open>
  What the worker posts to the main thread: the joined contents, or, from the \<open>catch\<close>,
  an object whose \<open>error\<close> field is the message of the error. The result is the message
  posted; the worker's own console is not part of it. The model is of the function
  \<open>fetchDirContents\<close> run to its end; the \<open>process.exit()\<close> that the worker script
  executes right after starting it is outside the function and is not modelled.
\<close>

datatype posted = PostedString string | PostedError string

definition fetchDirContents ::
  "nat \<Rightarrow> string list \<Rightarrow> (nat \<Rightarrow> listing) \<Rightarrow> posted option" where
  "fetchDirContents fuel exts remote =
     (case fetch_pages fuel exts remote 1 ([], []) of
        None \<Rightarrow> None
      | Some (Inl err) \<Rightarrow> Some (PostedError err)
      | Some (Inr (contents, lg)) \<Rightarrow> Some (PostedString (join_LF contents)))"

text \<open>
  The first loop of the coordinator, \<open>for (const item of rootItems)\<close>, writing the
  root-level files to the stream.
\<close>

fun write_root ::
  "string list \<Rightarrow> node list \<Rightarrow> string \<times> log_entry list \<Rightarrow> string + (string \<times> log_entry list)" where
  "write_root exts [] st = Inr st"
| "write_root exts (File path download # items) (sink, lg) =
     (case download of
        Some fetched \<Rightarrow>
          if accepted exts path then
            (case fetched of
               Inl err \<Rightarrow> Inl err
             | Inr fileContent \<Rightarrow>
                 (case exceeds_limit fileContent of
                    Inl err \<Rightarrow> Inl err
                  | Inr True \<Rightarrow>
                      write_root exts items (sink, lg @ [SkippedLargeFile path])
                  | Inr False \<Rightarrow>
                      write_root exts items (sink @ fileText path (rendered fileContent), lg)))
          else write_root exts items (sink, lg)
      | None \<Rightarrow> write_root exts items (sink, lg))"
| "write_root exts (item # items) st = write_root exts items st"






section \<open>Notions used in the statements and proofs\<close>

text \<open>The non-empty lines of a text, in order.\<close>

definition nonempty_lines :: "string \<Rightarrow> string list" where
  "nonempty_lines s = filter (\<lambda>l. l \<noteq> []) (split_lines s)"








text \<open>
  The text of a run of lines as \<open>chunkSourceCode\<close> accumulates it: the lines joined by line
  feeds, without the empty lines the run starts with (an empty line appended to an empty
  chunk leaves it empty).
\<close>

definition run_text :: "string list \<Rightarrow> string" where
  "run_text run = join_LF (dropWhile (\<lambda>line. line = []) run)"

text \<open>
  Invariants of the chunking loops. A state \<open>(chunks, currentChunk)\<close> represents a list
  of blocks when the blocks can be cut into consecutive groups whose concatenations are
  the chunks and the current chunk. A state fits a budget, up to a set of exempted
  strings, when each of its chunks is within the budget or exempted.
\<close>

definition represents :: "string list \<times> string \<Rightarrow> string list \<Rightarrow> bool" where
  "represents st blocks =
     (\<exists>groups group. fst st = map concat groups \<and> snd st = concat group
        \<and> concat groups @ group = blocks)"

definition fits :: "tokenizer \<Rightarrow> int \<Rightarrow> string set \<Rightarrow> string list \<times> string \<Rightarrow> bool" where
  "fits tk budget S st =
     (\<forall>c \<in> insert (snd st) (set (fst st)). countTokens_tiktoken tk c \<le> budget \<or> c \<in> S)"

definition fits_lines :: "int \<Rightarrow> string set \<Rightarrow> string list \<times> string \<Rightarrow> bool" where
  "fits_lines maxTokens S st =
     (\<forall>c \<in> insert (snd st) (set (fst st)). countTokens c \<le> maxTokens + 1 \<or> c \<in> S)"

section \<open>Properties of the estimator\<close>

lemma countTokens_div: "countTokens text = (int (length text) + 3) div 4"
  unfolding countTokens_def by linarith

lemma countTokens_nonneg: "0 \<le> countTokens text"
  by (simp add: countTokens_div)

lemma countTokens_Nil: "countTokens [] = 0"
  by (simp add: countTokens_div)

section \<open>The chunker on the empty text\<close>

text \<open>
  C10. For every positive budget, \<open>chunkSourceCode\<close> applied to the empty string returns
  the empty list of chunks, not a list holding one empty chunk.
\<close>

theorem chunkSourceCode_empty:
  "0 < maxTokens \<Longrightarrow> chunkSourceCode [] maxTokens = []"
  by (simp add: chunkSourceCode_def countTokens_Nil)

theorem chunkSourceCode_empty_witness:
  "(0::int) < 10000 \<and> chunkSourceCode [] 10000 = []"
  using chunkSourceCode_empty [of 10000] by simp

text \<open>
  C9. For every input string the fallback estimator returns the ceiling of a quarter of the
  length, the least integer \<open>n\<close> with \<open>length \<le> 4 * n\<close>, which is not negative; it has
  no failing branch. When the tokenizer is absent, or its \<open>encode\<close> throws on the text, the
  tokenizer-based estimator returns that same fallback value.
\<close>

theorem countTokens_fallback:
  "int (length text) \<le> 4 * countTokens text
   \<and> 4 * countTokens text < int (length text) + 4
   \<and> 0 \<le> countTokens text
   \<and> countTokens_tiktoken None text = countTokens text
   \<and> (encode text = None \<longrightarrow> countTokens_tiktoken (Some encode) text = countTokens text)"
proof -
  have "int (length text) \<le> 4 * countTokens text"
    unfolding countTokens_div by linarith
  moreover have "4 * countTokens text < int (length text) + 4"
    unfolding countTokens_div by linarith
  moreover have "countTokens_tiktoken None text = countTokens text"
    by (simp add: countTokens_tiktoken_def countTokens_def)
  moreover have "encode text = None \<longrightarrow> countTokens_tiktoken (Some encode) text = countTokens text"
    by (simp add: countTokens_tiktoken_def countTokens_def)
  ultimately show ?thesis
    using countTokens_nonneg [of "text"] by blast
qed

theorem countTokens_fallback_witness:
  "countTokens ''hello'' = 2
   \<and> countTokens_tiktoken (Some (\<lambda>t. None)) ''hello'' = 2
   \<and> countTokens_tiktoken None [] = 0"
  using countTokens_fallback [of "''hello''" "\<lambda>t. None"] countTokens_fallback [of "[]"]
  by (simp add: countTokens_div)

section \<open>Retry exhaustion\<close>

lemma retry_loop_all_limited:
  "\<forall>k. int k < retries \<longrightarrow> rate_limited (create k) \<Longrightarrow> int attempt \<le> retries \<Longrightarrow>
         retry_loop create retries delay attempt tr =
           (Inl MaxRetriesReached,
            tr\<lparr>calls := calls tr + (nat retries - attempt),
               waits := waits tr @ map (\<lambda>k. delay * 2 ^ k) [attempt ..< nat retries]\<rparr>)"
proof (induction create retries delay attempt tr rule: retry_loop.induct)
  case (1 create retries delay attempt tr)
  show ?case
  proof (cases "int attempt < retries")
    case False
    with "1.prems"(2) have "nat retries = attempt" by simp
    with False show ?thesis by (subst retry_loop.simps) simp
  next
    case True
    from "1.prems"(1) True have "rate_limited (create attempt)" by blast
    then obtain error where e: "create attempt = Threw error" "response_status error = Some 429"
      by (cases "create attempt") (simp_all add: rate_limited_def)
    from True have lt: "attempt < nat retries" by simp
    have step: "retry_loop create retries delay attempt tr =
        retry_loop create retries delay (attempt + 1)
          (tr\<lparr>calls := calls tr + 1, waits := waits tr @ [delay * 2 ^ attempt]\<rparr>)"
      using True e by (subst retry_loop.simps) (simp add: Let_def)
    have ih: "retry_loop create retries delay (attempt + 1)
          (tr\<lparr>calls := calls tr + 1, waits := waits tr @ [delay * 2 ^ attempt]\<rparr>) =
        (Inl MaxRetriesReached,
         (tr\<lparr>calls := calls tr + 1, waits := waits tr @ [delay * 2 ^ attempt]\<rparr>)
           \<lparr>calls := calls (tr\<lparr>calls := calls tr + 1, waits := waits tr @ [delay * 2 ^ attempt]\<rparr>)
                       + (nat retries - (attempt + 1)),
            waits := waits (tr\<lparr>calls := calls tr + 1, waits := waits tr @ [delay * 2 ^ attempt]\<rparr>)
                       @ map (\<lambda>k. delay * 2 ^ k) [attempt + 1 ..< nat retries]\<rparr>)"
      using "1.IH" [OF True e(1) e(2) refl "1.prems"(1)] True by simp
    have upt: "[attempt ..< nat retries] = attempt # [attempt + 1 ..< nat retries]"
      using lt by (simp add: upt_conv_Cons)
    show ?thesis
      unfolding step ih upt using lt by simp
  qed
qed

text \<open>
  C5. The claim is that a call whose every attempt fails with HTTP 429 is attempted
  \<open>retries\<close> times and then ends in the max-retries error. The retry branch looks for the
  status at \<open>error.response.status\<close>; the error that the client created by \<open>new OpenAI(...)\<close>
  throws for a 429 carries the status at \<open>error.status\<close> and has no \<open>response\<close>. On that
  error the wrapper makes a single call and rethrows it. On an error that does carry
  \<open>response.status\<close> 429 it makes its three calls, waiting 1000, 2000 and 4000 ms, and
  throws the max-retries error.
\<close>

theorem callOpenAIWithRetry_rethrows_client_429:
  "callOpenAIWithRetry
     (\<lambda>k. Threw \<lparr>status = Some 429, response_status = None, message = ''429 Too Many Requests''\<rparr>
        :: unit api_result) 3 1000 =
     (Inl (Rethrown \<lparr>status = Some 429, response_status = None, message = ''429 Too Many Requests''\<rparr>),
      \<lparr>calls = 1, waits = []\<rparr>)
   \<and> callOpenAIWithRetry
     (\<lambda>k. Threw \<lparr>status = None, response_status = Some 429, message = ''Too Many Requests''\<rparr>
        :: unit api_result) 3 1000 =
     (Inl MaxRetriesReached, \<lparr>calls = 3, waits = [1000, 2000, 4000]\<rparr>)"
proof -
  have "callOpenAIWithRetry
     (\<lambda>k. Threw \<lparr>status = Some 429, response_status = None, message = ''429 Too Many Requests''\<rparr>
        :: unit api_result) 3 1000 =
     (Inl (Rethrown \<lparr>status = Some 429, response_status = None, message = ''429 Too Many Requests''\<rparr>),
      \<lparr>calls = 1, waits = []\<rparr>)"
    unfolding callOpenAIWithRetry_def by (subst retry_loop.simps) simp
  moreover have "callOpenAIWithRetry
     (\<lambda>k. Threw \<lparr>status = None, response_status = Some 429, message = ''Too Many Requests''\<rparr>
        :: unit api_result) 3 1000 =
     (Inl MaxRetriesReached, \<lparr>calls = 3, waits = [1000, 2000, 4000]\<rparr>)"
    using retry_loop_all_limited
      [of 3 "\<lambda>k. Threw \<lparr>status = None, response_status = Some 429, message = ''Too Many Requests''\<rparr> :: unit api_result"
          0 1000 "\<lparr>calls = 0, waits = []\<rparr>"]
    by (simp add: callOpenAIWithRetry_def rate_limited_def upt_rec)
  ultimately show ?thesis by blast
qed

section \<open>Grouping of blocks in the fused walker\<close>

lemma represents_init: "represents ([], []) []"
  unfolding represents_def by (intro exI [of _ "[]"]) simp

lemma represents_add_block:
  assumes "represents st blocks"
  shows "represents (add_block tk budget block st) (blocks @ [block])"
proof -
  obtain chunks cur where st: "st = (chunks, cur)" by (cases st)
  from assms st obtain groups group where
    g: "chunks = map concat groups" "cur = concat group" "concat groups @ group = blocks"
    unfolding represents_def by auto
  show ?thesis
  proof (cases "countTokens_tiktoken tk (cur @ block) > budget")
    case True
    then have "add_block tk budget block st = (map concat (groups @ [group]), concat [block])"
      using st g by (simp add: add_block_def)
    moreover have "concat (groups @ [group]) @ [block] = blocks @ [block]"
      using g by simp
    ultimately show ?thesis unfolding represents_def by (metis fst_conv snd_conv)
  next
    case False
    then have "add_block tk budget block st = (map concat groups, concat (group @ [block]))"
      using st g by (simp add: add_block_def)
    moreover have "concat groups @ (group @ [block]) = blocks @ [block]"
      using g by simp
    ultimately show ?thesis unfolding represents_def by (metis fst_conv snd_conv)
  qed
qed

lemma represents_add_chunk:
  assumes "represents st blocks"
  shows "represents (add_block tk budget (concat dg) st) (blocks @ dg)"
proof -
  obtain chunks cur where st: "st = (chunks, cur)" by (cases st)
  from assms st obtain groups group where
    g: "chunks = map concat groups" "cur = concat group" "concat groups @ group = blocks"
    unfolding represents_def by auto
  show ?thesis
  proof (cases "countTokens_tiktoken tk (cur @ concat dg) > budget")
    case True
    then have "add_block tk budget (concat dg) st = (map concat (groups @ [group]), concat dg)"
      using st g by (simp add: add_block_def)
    moreover have "concat (groups @ [group]) @ dg = blocks @ dg"
      using g by simp
    ultimately show ?thesis unfolding represents_def by (metis fst_conv snd_conv)
  next
    case False
    then have "add_block tk budget (concat dg) st = (map concat groups, concat (group @ dg))"
      using st g by (simp add: add_block_def)
    moreover have "concat groups @ (group @ dg) = blocks @ dg"
      using g by simp
    ultimately show ?thesis unfolding represents_def by (metis fst_conv snd_conv)
  qed
qed

lemma represents_add_dirChunks:
  "represents st blocks \<Longrightarrow>
   represents (add_dirChunks tk budget (map concat dgs) st) (blocks @ concat dgs)"
proof (induction dgs arbitrary: st blocks)
  case Nil
  then show ?case by simp
next
  case (Cons dg dgs)
  from Cons.IH [OF represents_add_chunk [OF Cons.prems, of tk budget dg]]
  show ?case by simp
qed

lemma fileText_not_Nil: "fileText path fileContent \<noteq> []"
  by (simp add: fileText_def)

lemma formatted_not_Nil: "[] \<notin> set (formatted records)"
  by (induction records) (auto simp: formatted_def fileText_def)

lemma formatted_append: "formatted (xs @ ys) = formatted xs @ formatted ys"
  by (simp add: formatted_def)

lemma walk_represents:
  "represents (chunks, cur) blocks \<Longrightarrow>
     walk_items tk exts budget items (chunks, cur, lg) = Inr (chunks', cur', lg') \<Longrightarrow>
     represents (chunks', cur') (blocks @ formatted (records_items exts items))"
  and fetch_grouped:
  "fetch_chunks tk exts budget sub lg0 = Inr (dirChunks, lg1) \<Longrightarrow>
     \<exists>groups. dirChunks = map concat groups
       \<and> concat groups = formatted (records_listing exts sub)"
proof (induction tk exts budget items "(chunks, cur, lg)" and tk exts budget sub lg0
    arbitrary: chunks cur lg blocks chunks' cur' lg' and dirChunks lg1
    rule: walk_items_fetch_chunks.induct)
  case (1 tk exts budget)
  then show ?case by (simp add: formatted_def)
next
  case (2 tk exts budget path download items chunks currentChunk lg)
  show ?case
  proof (cases download)
    case None
    with 2 show ?thesis by simp
  next
    case (Some fetched)
    show ?thesis
    proof (cases "accepted exts path")
      case False
      with 2 Some show ?thesis by (cases fetched) simp_all
    next
      case True
      show ?thesis
      proof (cases fetched)
        case (Inl err)
        with 2 Some True show ?thesis by simp
      next
        case (Inr fileContent)
        show ?thesis
        proof (cases "exceeds_limit fileContent")
          case failed: (Inl err)
          with "2.prems"(2) Some True Inr show ?thesis by simp
        next
          case test: (Inr exceeds)
          show ?thesis
          proof (cases exceeds)
            case big: True
            have w: "walk_items tk exts budget items (chunks, currentChunk, lg @ [SkippedLargeFile path])
                 = Inr (chunks', cur', lg')"
              using "2.prems"(2) Some True Inr test big by simp
            have bt: "exceeds = True" using big by simp
            from "2.hyps"(2) [OF Some True Inr test bt "2.prems"(1) w]
            show ?thesis using Some True Inr test big by simp
          next
            case small: False
            let ?b = "fileText path (rendered fileContent)"
            obtain c1 k1 where ab: "add_block tk budget ?b (chunks, currentChunk) = (c1, k1)"
              by (cases "add_block tk budget ?b (chunks, currentChunk)")
            have r: "represents (c1, k1) (blocks @ [?b])"
              using represents_add_block [OF "2.prems"(1), of tk budget ?b] ab by simp
            have w: "walk_items tk exts budget items (c1, k1, lg) = Inr (chunks', cur', lg')"
              using "2.prems"(2) Some True Inr test small ab by simp
            have bf: "exceeds = False" using small by simp
            from "2.hyps"(3) [OF Some True Inr test bf ab [symmetric] r w]
            show ?thesis using Some True Inr test small by (simp add: formatted_def)
          qed
        qed
      qed
    qed
  qed
next
  case (3 tk exts budget path sub items chunks currentChunk lg)
  from "3.prems"(2) obtain dirChunks lg1 where
    f: "fetch_chunks tk exts budget sub lg = Inr (dirChunks, lg1)"
    by (auto split: sum.splits)
  from "3.hyps"(1) [OF f] obtain dgs where
    dgs: "dirChunks = map concat dgs" "concat dgs = formatted (records_listing exts sub)"
    by blast
  obtain c1 k1 where ad: "add_dirChunks tk budget dirChunks (chunks, currentChunk) = (c1, k1)"
    by (cases "add_dirChunks tk budget dirChunks (chunks, currentChunk)")
  have r: "represents (c1, k1) (blocks @ formatted (records_listing exts sub))"
    using represents_add_dirChunks [OF "3.prems"(1), of tk budget dgs] dgs ad by simp
  have w: "walk_items tk exts budget items (c1, k1, lg1) = Inr (chunks', cur', lg')"
    using "3.prems"(2) f ad by simp
  from "3.hyps"(2) [OF f refl ad [symmetric] r w]
  show ?case by (simp add: formatted_append)
next
  case (4 tk exts budget path items st)
  then show ?case by simp
next
  case (5 tk exts budget err lg)
  then show ?case by simp
next
  case (6 tk exts budget items lg)
  from "6.prems" obtain chunks cur where
    w: "walk_items tk exts budget items ([], [], lg) = Inr (chunks, cur, lg1)"
    and d: "dirChunks = (if cur \<noteq> [] then chunks @ [cur] else chunks)"
    by (auto split: sum.splits)
  from "6.hyps" [OF represents_init w] obtain groups group where
    g: "chunks = map concat groups" "cur = concat group"
       "concat groups @ group = formatted (records_items exts items)"
    unfolding represents_def by auto
  show ?case
  proof (cases "cur = []")
    case False
    with d g have "dirChunks = map concat (groups @ [group])" by simp
    moreover from g have "concat (groups @ [group]) = formatted (records_listing exts (Listing items))"
      by simp
    ultimately show ?thesis by blast
  next
    case True
    have "set group \<subseteq> set (formatted (records_items exts items))"
      using g(3) [symmetric] by simp
    then have "[] \<notin> set group" using formatted_not_Nil by blast
    with True g(2) have "group = []" by (cases group) auto
    with d g True show ?thesis by auto
  qed
qed

section \<open>Budget invariant of the fused walker\<close>

lemma fits_mono: "fits tk budget S st \<Longrightarrow> S \<subseteq> S' \<Longrightarrow> fits tk budget S' st"
  unfolding fits_def by blast

lemma fits_add_block:
  assumes "fits tk budget S st"
    and "countTokens_tiktoken tk block \<le> budget \<or> block \<in> S"
  shows "fits tk budget S (add_block tk budget block st)"
proof -
  obtain chunks cur where st: "st = (chunks, cur)" by (cases st)
  show ?thesis
    using assms unfolding st fits_def add_block_def by auto
qed

lemma fits_add_dirChunks:
  "fits tk budget S st \<Longrightarrow>
   \<forall>d \<in> set dirChunks. countTokens_tiktoken tk d \<le> budget \<or> d \<in> S \<Longrightarrow>
   fits tk budget S (add_dirChunks tk budget dirChunks st)"
proof (induction dirChunks arbitrary: st)
  case Nil
  then show ?case by simp
next
  case (Cons d ds)
  have "fits tk budget S (add_block tk budget d st)"
    using fits_add_block [OF Cons.prems(1)] Cons.prems(2) by simp
  from Cons.IH [OF this] Cons.prems(2) show ?case by simp
qed

lemma walk_fits:
  "countTokens_tiktoken tk [] \<le> budget \<Longrightarrow> fits tk budget S (chunks, cur) \<Longrightarrow>
     walk_items tk exts budget items (chunks, cur, lg) = Inr (chunks', cur', lg') \<Longrightarrow>
     fits tk budget (S \<union> set (formatted (records_items exts items))) (chunks', cur')"
  and fetch_fits:
  "countTokens_tiktoken tk [] \<le> budget \<Longrightarrow>
     fetch_chunks tk exts budget sub lg0 = Inr (dirChunks, lg1) \<Longrightarrow>
     \<forall>c \<in> set dirChunks. countTokens_tiktoken tk c \<le> budget
        \<or> c \<in> set (formatted (records_listing exts sub))"
proof (induction tk exts budget items "(chunks, cur, lg)" and tk exts budget sub lg0
    arbitrary: chunks cur lg S chunks' cur' lg' and dirChunks lg1
    rule: walk_items_fetch_chunks.induct)
  case (1 tk exts budget)
  then show ?case by (simp add: formatted_def)
next
  case (2 tk exts budget path download items chunks currentChunk lg)
  show ?case
  proof (cases download)
    case None
    with 2 show ?thesis by simp
  next
    case (Some fetched)
    show ?thesis
    proof (cases "accepted exts path")
      case False
      with 2 Some show ?thesis by (cases fetched) simp_all
    next
      case True
      show ?thesis
      proof (cases fetched)
        case (Inl err)
        with 2 Some True show ?thesis by simp
      next
        case (Inr fileContent)
        show ?thesis
        proof (cases "exceeds_limit fileContent")
          case failed: (Inl err)
          with "2.prems"(3) Some True Inr show ?thesis by simp
        next
          case test: (Inr exceeds)
          show ?thesis
          proof (cases exceeds)
            case big: True
            have w: "walk_items tk exts budget items (chunks, currentChunk, lg @ [SkippedLargeFile path])
                 = Inr (chunks', cur', lg')"
              using "2.prems"(3) Some True Inr test big by simp
            have bt: "exceeds = True" using big by simp
            from "2.hyps"(2) [OF Some True Inr test bt "2.prems"(1) "2.prems"(2) w]
            show ?thesis using Some True Inr test big by simp
          next
            case small: False
            let ?b = "fileText path (rendered fileContent)"
            obtain c1 k1 where ab: "add_block tk budget ?b (chunks, currentChunk) = (c1, k1)"
              by (cases "add_block tk budget ?b (chunks, currentChunk)")
            have "fits tk budget (insert ?b S) (chunks, currentChunk)"
              using fits_mono [OF "2.prems"(2)] by blast
            then have r: "fits tk budget (insert ?b S) (c1, k1)"
              using fits_add_block [of tk budget "insert ?b S" "(chunks, currentChunk)" ?b] ab by simp
            have w: "walk_items tk exts budget items (c1, k1, lg) = Inr (chunks', cur', lg')"
              using "2.prems"(3) Some True Inr test small ab by simp
            have bf: "exceeds = False" using small by simp
            from "2.hyps"(3) [OF Some True Inr test bf ab [symmetric] "2.prems"(1) r w]
            show ?thesis using Some True Inr test small by (simp add: formatted_def)
          qed
        qed
      qed
    qed
  qed
next
  case (3 tk exts budget path sub items chunks currentChunk lg)
  from "3.prems"(3) obtain dirChunks lg1 where
    f: "fetch_chunks tk exts budget sub lg = Inr (dirChunks, lg1)"
    by (auto split: sum.splits)
  let ?D = "set (formatted (records_listing exts sub))"
  have d: "\<forall>c \<in> set dirChunks. countTokens_tiktoken tk c \<le> budget \<or> c \<in> S \<union> ?D"
    using "3.hyps"(1) [OF "3.prems"(1) f] by blast
  obtain c1 k1 where ad: "add_dirChunks tk budget dirChunks (chunks, currentChunk) = (c1, k1)"
    by (cases "add_dirChunks tk budget dirChunks (chunks, currentChunk)")
  have "fits tk budget (S \<union> ?D) (chunks, currentChunk)"
    using fits_mono [OF "3.prems"(2)] by blast
  from fits_add_dirChunks [OF this d] ad
  have r: "fits tk budget (S \<union> ?D) (c1, k1)" by simp
  have w: "walk_items tk exts budget items (c1, k1, lg1) = Inr (chunks', cur', lg')"
    using "3.prems"(3) f ad by simp
  from "3.hyps"(2) [OF f refl ad [symmetric] "3.prems"(1) r w]
  show ?case by (simp add: formatted_append Un_assoc)
next
  case (4 tk exts budget path items st)
  then show ?case by simp
next
  case (5 tk exts budget err lg)
  then show ?case by simp
next
  case (6 tk exts budget items lg)
  from "6.prems"(2) obtain chunks cur where
    w: "walk_items tk exts budget items ([], [], lg) = Inr (chunks, cur, lg1)"
    and d: "dirChunks = (if cur \<noteq> [] then chunks @ [cur] else chunks)"
    by (auto split: sum.splits)
  have "fits tk budget {} ([], [])"
    using "6.prems"(1) by (simp add: fits_def)
  from "6.hyps" [OF "6.prems"(1) this w]
  show ?case using d by (auto simp: fits_def)
qed

section \<open>Lines and the line-based chunker\<close>

lemma split_lines_not_Nil: "split_lines s \<noteq> []"
  by (induction s) (auto split: list.splits)

lemma split_lines_append_LF: "split_lines (a @ LF # b) = split_lines a @ split_lines b"
proof (induction a)
  case Nil
  show ?case by simp
next
  case (Cons c a)
  obtain l ls where "split_lines a = l # ls"
    using split_lines_not_Nil [of a] by (cases "split_lines a") auto
  with Cons show ?case by simp
qed

lemma split_lines_no_LF: "l \<in> set (split_lines s) \<Longrightarrow> LF \<notin> set l"
proof (induction s arbitrary: l)
  case Nil
  then show ?case by simp
next
  case (Cons c s)
  obtain l0 ls where sp: "split_lines s = l0 # ls"
    using split_lines_not_Nil [of s] by (cases "split_lines s") auto
  show ?case
  proof (cases "c = LF")
    case True
    with Cons show ?thesis by auto
  next
    case False
    with Cons.prems sp have "l = c # l0 \<or> l \<in> set ls" by simp
    then show ?thesis
      using Cons.IH [of l0] Cons.IH [of l] sp False by auto
  qed
qed

lemma split_lines_single: "LF \<notin> set l \<Longrightarrow> split_lines l = [l]"
  by (induction l) auto

lemma nonempty_lines_Nil: "nonempty_lines [] = []"
  by (simp add: nonempty_lines_def)

lemma nonempty_lines_single: "LF \<notin> set l \<Longrightarrow> nonempty_lines l = filter (\<lambda>l. l \<noteq> []) [l]"
  by (simp add: nonempty_lines_def split_lines_single)

lemma nonempty_lines_append_LF:
  "nonempty_lines (a @ LF # b) = nonempty_lines a @ nonempty_lines b"
  by (simp add: nonempty_lines_def split_lines_append_LF)

lemma chunk_lines_nonempty_lines:
  "\<forall>l \<in> set lines. LF \<notin> set l \<Longrightarrow>
   chunk_lines maxTokens lines chunks cur = (chunks', cur') \<Longrightarrow>
   concat (map nonempty_lines chunks') @ nonempty_lines cur' =
     concat (map nonempty_lines chunks) @ nonempty_lines cur @ filter (\<lambda>l. l \<noteq> []) lines"
proof (induction lines arbitrary: chunks cur)
  case Nil
  then show ?case by simp
next
  case (Cons line lines)
  from Cons.prems(1) have nl: "LF \<notin> set line" and rest: "\<forall>l \<in> set lines. LF \<notin> set l"
    by simp_all
  show ?case
  proof (cases "countTokens cur + countTokens line > maxTokens")
    case True
    with Cons.prems(2) have "chunk_lines maxTokens lines (chunks @ [cur]) line = (chunks', cur')"
      by simp
    from Cons.IH [OF rest this] show ?thesis
      by (simp add: nonempty_lines_single [OF nl])
  next
    case False
    show ?thesis
    proof (cases "cur = []")
      case True
      with False Cons.prems(2) have "chunk_lines maxTokens lines chunks line = (chunks', cur')"
        by simp
      from Cons.IH [OF rest this] show ?thesis
        using True by (simp add: nonempty_lines_single [OF nl] nonempty_lines_Nil)
    next
      case nonempty: False
      with False Cons.prems(2) have
        "chunk_lines maxTokens lines chunks (cur @ LF # line) = (chunks', cur')"
        by simp
      from Cons.IH [OF rest this] show ?thesis
        by (simp add: nonempty_lines_append_LF nonempty_lines_single [OF nl])
    qed
  qed
qed

lemma countTokens_join:
  "countTokens (cur @ (if cur \<noteq> [] then [LF] else []) @ line) \<le> countTokens cur + countTokens line + 1"
  by (simp add: countTokens_div) linarith

lemma chunk_lines_fits:
  "fits_lines maxTokens S (chunks, cur) \<Longrightarrow>
   chunk_lines maxTokens lines chunks cur = (chunks', cur') \<Longrightarrow>
   fits_lines maxTokens (S \<union> set lines) (chunks', cur')"
proof (induction lines arbitrary: chunks cur S)
  case Nil
  then show ?case by simp
next
  case (Cons line lines)
  show ?case
  proof (cases "countTokens cur + countTokens line > maxTokens")
    case True
    with Cons.prems(2) have c: "chunk_lines maxTokens lines (chunks @ [cur]) line = (chunks', cur')"
      by simp
    have "fits_lines maxTokens (insert line S) (chunks @ [cur], line)"
      using Cons.prems(1) by (auto simp: fits_lines_def)
    from Cons.IH [OF this c] show ?thesis by simp
  next
    case False
    let ?new = "cur @ (if cur \<noteq> [] then [LF] else []) @ line"
    from False Cons.prems(2) have c: "chunk_lines maxTokens lines chunks ?new = (chunks', cur')"
      by simp
    have "countTokens ?new \<le> maxTokens + 1"
      using countTokens_join [of cur line] False by linarith
    then have "fits_lines maxTokens (insert line S) (chunks, ?new)"
      using Cons.prems(1) unfolding fits_lines_def by auto
    from Cons.IH [OF this c] show ?thesis by simp
  qed
qed

lemma chunkSourceCode_nonempty_lines:
  "concat (map nonempty_lines (chunkSourceCode sourceCode maxTokens)) = nonempty_lines sourceCode"
proof -
  obtain chunks cur where c: "chunk_lines maxTokens (split_lines sourceCode) [] [] = (chunks, cur)"
    by (cases "chunk_lines maxTokens (split_lines sourceCode) [] []")
  have "\<forall>l \<in> set (split_lines sourceCode). LF \<notin> set l"
    using split_lines_no_LF by blast
  from chunk_lines_nonempty_lines [OF this c]
  have "concat (map nonempty_lines chunks) @ nonempty_lines cur = nonempty_lines sourceCode"
    by (simp add: nonempty_lines_Nil) (simp add: nonempty_lines_def)
  then show ?thesis
    using c by (auto simp: chunkSourceCode_def nonempty_lines_Nil)
qed

lemma chunkSourceCode_budget:
  assumes "0 \<le> maxTokens" and "c \<in> set (chunkSourceCode sourceCode maxTokens)"
  shows "countTokens c \<le> maxTokens + 1 \<or> c \<in> set (split_lines sourceCode)"
proof -
  obtain chunks cur where c: "chunk_lines maxTokens (split_lines sourceCode) [] [] = (chunks, cur)"
    by (cases "chunk_lines maxTokens (split_lines sourceCode) [] []")
  have "fits_lines maxTokens {} ([], [])"
    using assms(1) by (simp add: fits_lines_def countTokens_Nil)
  from chunk_lines_fits [OF this c]
  have "fits_lines maxTokens (set (split_lines sourceCode)) (chunks, cur)" by simp
  moreover have "c \<in> insert cur (set chunks)"
    using assms(2) c by (auto simp: chunkSourceCode_def split: if_splits)
  ultimately show ?thesis unfolding fits_lines_def by auto
qed

section \<open>What the fused walker returns\<close>

lemma fetch_concat:
  "fetch_chunks tk exts budget rootResponse lg = Inr (chunks, lg') \<Longrightarrow>
   concat chunks = concat (formatted (records_listing exts rootResponse))"
proof -
  assume "fetch_chunks tk exts budget rootResponse lg = Inr (chunks, lg')"
  from fetch_grouped [OF this] obtain groups where
    "chunks = map concat groups" "concat groups = formatted (records_listing exts rootResponse)"
    by blast
  moreover have "concat (map concat groups) = concat (concat groups)"
    by (induction groups) auto
  ultimately show ?thesis by simp
qed

lemma fetch_groups:
  "fetch_chunks tk exts budget rootResponse lg = Inr (chunks, lg') \<Longrightarrow>
   \<exists>groups. concat groups = formatted (records_listing exts rootResponse)
      \<and> map concat groups = chunks"
  using fetch_grouped by blast

lemma fetch_budget:
  "countTokens_tiktoken tk [] \<le> budget \<Longrightarrow>
   fetch_chunks tk exts budget rootResponse lg = Inr (chunks, lg') \<Longrightarrow>
   c \<in> set chunks \<Longrightarrow>
   countTokens_tiktoken tk c \<le> budget \<or> c \<in> set (formatted (records_listing exts rootResponse))"
  using fetch_fits by blast

section \<open>Runs of lines, records of text, traces of events\<close>

lemma join_LF_Cons: "rest \<noteq> [] \<Longrightarrow> join_LF (l # rest) = l @ LF # join_LF rest"
  by (cases rest) simp_all

lemma join_LF_split_lines: "join_LF (split_lines s) = s"
proof (induction s)
  case Nil
  show ?case by simp
next
  case (Cons c s)
  obtain l ls where sp: "split_lines s = l # ls"
    using split_lines_not_Nil [of s] by (cases "split_lines s") auto
  show ?case
  proof (cases "c = LF")
    case True
    with Cons sp show ?thesis by (simp add: join_LF_Cons)
  next
    case False
    with Cons sp show ?thesis by (cases ls) auto
  qed
qed

lemma join_LF_snoc: "run \<noteq> [] \<Longrightarrow> join_LF (run @ [l]) = join_LF run @ LF # l"
proof (induction run rule: join_LF.induct)
  case 1
  then show ?case by simp
next
  case (2 x)
  show ?case by simp
next
  case (3 x y ys)
  then show ?case by simp
qed

lemma join_LF_not_Nil: "run \<noteq> [] \<Longrightarrow> hd run \<noteq> [] \<Longrightarrow> join_LF run \<noteq> []"
  by (induction run rule: join_LF.induct) auto

lemma run_text_Nil: "run_text [] = []"
  by (simp add: run_text_def)

lemma run_text_single: "run_text [line] = line"
  by (simp add: run_text_def)

lemma run_text_snoc:
  "run_text (run @ [line]) = run_text run @ (if run_text run \<noteq> [] then [LF] else []) @ line"
proof (cases "dropWhile (\<lambda>l. l = []) run = []")
  case True
  then have all: "\<forall>l \<in> set run. l = []"
    by simp
  have rt: "run_text run = []"
    unfolding run_text_def True by simp
  have "dropWhile (\<lambda>l. l = []) (run @ [line]) = dropWhile (\<lambda>l. l = []) [line]"
    using all by simp
  then have "run_text (run @ [line]) = line"
    unfolding run_text_def by simp
  with rt show ?thesis by simp
next
  case False
  then obtain l where l: "l \<in> set run" "l \<noteq> []"
    by auto
  then have d: "dropWhile (\<lambda>l. l = []) (run @ [line]) = dropWhile (\<lambda>l. l = []) run @ [line]"
    by simp
  have "hd (dropWhile (\<lambda>l. l = []) run) \<noteq> []"
    using False hd_dropWhile [of "\<lambda>l. l = []" run] by simp
  with False have "join_LF (dropWhile (\<lambda>l. l = []) run) \<noteq> []"
    by (simp add: join_LF_not_Nil)
  then have ne: "run_text run \<noteq> []"
    by (simp add: run_text_def)
  have "run_text (run @ [line]) = join_LF (dropWhile (\<lambda>l. l = []) run) @ LF # line"
    unfolding run_text_def d using False by (rule join_LF_snoc)
  with ne show ?thesis by (simp add: run_text_def)
qed

lemma chunk_lines_runs:
  "chunk_lines maxTokens lines (map run_text runs) (run_text run) = (chunks', cur') \<Longrightarrow>
   \<exists>runs' run'. chunks' = map run_text runs' \<and> cur' = run_text run'
      \<and> concat runs' @ run' = concat runs @ run @ lines"
proof (induction lines arbitrary: runs run)
  case Nil
  then show ?case by auto
next
  case (Cons line lines)
  show ?case
  proof (cases "countTokens (run_text run) + countTokens line > maxTokens")
    case True
    with Cons.prems have
      "chunk_lines maxTokens lines (map run_text (runs @ [run])) (run_text [line]) = (chunks', cur')"
      by (simp add: run_text_single)
    from Cons.IH [OF this] show ?thesis by auto
  next
    case False
    with Cons.prems have
      "chunk_lines maxTokens lines (map run_text runs) (run_text (run @ [line])) = (chunks', cur')"
      by (simp add: run_text_snoc)
    from Cons.IH [OF this] show ?thesis by auto
  qed
qed

lemma chunkSourceCode_runs:
  "\<exists>runs run. concat runs @ run = split_lines sourceCode
     \<and> chunkSourceCode sourceCode maxTokens =
         map run_text runs @ (if run_text run \<noteq> [] then [run_text run] else [])"
proof -
  obtain chunks cur where c: "chunk_lines maxTokens (split_lines sourceCode) [] [] = (chunks, cur)"
    by (cases "chunk_lines maxTokens (split_lines sourceCode) [] []")
  then have "chunk_lines maxTokens (split_lines sourceCode) (map run_text []) (run_text []) = (chunks, cur)"
    by (simp add: run_text_Nil)
  from chunk_lines_runs [OF this] obtain runs run where
    r: "chunks = map run_text runs" "cur = run_text run"
       "concat runs @ run = split_lines sourceCode"
    by auto
  have "chunkSourceCode sourceCode maxTokens =
      map run_text runs @ (if run_text run \<noteq> [] then [run_text run] else [])"
    using c r by (simp add: chunkSourceCode_def)
  with r(3) show ?thesis by blast
qed

lemma text_records:
  "text_items exts items \<Longrightarrow> records_items exts items = file_records_items exts items"
  "text_listing exts sub \<Longrightarrow> records_listing exts sub = file_records_listing exts sub"
  by (induction exts items and exts sub rule: text_items_text_listing.induct) simp_all



section \<open>Round trip of the chunks\<close>

text \<open>
  C1, as the claim states it, fails. For \<open>chunkSourceCode\<close>: the text of one file whose
  body is the two lines \<open>alpha = 1\<close> and \<open>beta = 22\<close>, chunked with a budget of 5 tokens,
  gives three chunks; the line feed between the two lines of the body is in none of them,
  so the body is not what remains of their concatenation behind any header. The line feed
  that a text starts with is lost even when the text fits one chunk. For the fetch
  that chunks while fetching: a file whose text is \<open>[1, 2, 3]\<close> reaches the walker as a
  parsed array, and the chunk holds its rendering \<open>1,2,3\<close>, not the text of the file.
\<close>

theorem chunks_do_not_reproduce_corpus:
  "chunkSourceCode (fileText ''b.py'' (''alpha = 1'' @ [LF] @ ''beta = 22'')) 5 =
     [''=== File: b.py ==='', ''alpha = 1'', ''beta = 22'']
   \<and> \<not> endsWith (concat (chunkSourceCode (fileText ''b.py'' (''alpha = 1'' @ [LF] @ ''beta = 22'')) 5))
         (''alpha = 1'' @ [LF] @ ''beta = 22'')
   \<and> chunkSourceCode ([LF] @ ''ab'') 10000 = [''ab'']
   \<and> fetch_chunks None default_extensions 25000
       (Listing [File ''data.js'' (Some (Inr (Json ''[1, 2, 3]'' (JArray 3 ''1,2,3''))))]) [] =
     Inr ([fileText ''data.js'' ''1,2,3''], [])
   \<and> file_records_listing default_extensions
       (Listing [File ''data.js'' (Some (Inr (Json ''[1, 2, 3]'' (JArray 3 ''1,2,3''))))]) =
     [(''data.js'', ''[1, 2, 3]'')]"
  by (simp add: chunkSourceCode_def fileText_def countTokens_div endsWith_def
      accepted_def default_extensions_def add_block_def countTokens_tiktoken_def)

text \<open>
  C1, amended. For the fetch that chunks while fetching, with any tokenizer, extensions and
  budget, on a tree whose downloads hand over the text of the files as it is: when the call
  returns, the concatenation of its chunks, in order, is exactly the concatenation of the
  formatted blocks (path header, then text) of all FileRecords of the tree in their order,
  nothing lost and nothing repeated. For \<open>chunkSourceCode\<close>, on every text and budget: the
  lines of the input, which joined by line feeds are the input again, fall into
  consecutive runs, and the chunks are, in order, the texts of these runs, each the lines
  of its run joined by line feeds after the empty lines the run starts with are dropped
  (the text of the last run is left out when it is empty). So the chunks hold every
  character of the input, in order and once, but for the line feeds between the runs and
  the empty lines at the start of a run.
\<close>

theorem chunks_reproduce_corpus:
  "(text_listing exts rootResponse \<and> fetch_chunks tk exts budget rootResponse lg = Inr (chunks, lg') \<longrightarrow>
      concat chunks = concat (formatted (file_records_listing exts rootResponse)))
   \<and> (\<exists>runs run. concat runs @ run = split_lines sourceCode
        \<and> chunkSourceCode sourceCode maxTokens =
            map run_text runs @ (if run_text run \<noteq> [] then [run_text run] else []))
   \<and> join_LF (split_lines sourceCode) = sourceCode"
  using fetch_concat [of tk exts budget rootResponse lg chunks lg'] text_records(2) [of exts rootResponse]
    chunkSourceCode_runs [of sourceCode maxTokens] join_LF_split_lines [of sourceCode]
  by auto

theorem chunks_reproduce_corpus_witness:
  "text_listing default_extensions
     (Listing [File ''a.py'' (Some (Inr (Text ''print(1)''))), File ''b.txt'' (Some (Inr (Text ''note''))),
               Dir ''lib'' (Listing [File ''lib/c.js'' (Some (Inr (Text ''let x'')))])])
   \<and> fetch_chunks None default_extensions 25000
     (Listing [File ''a.py'' (Some (Inr (Text ''print(1)''))), File ''b.txt'' (Some (Inr (Text ''note''))),
               Dir ''lib'' (Listing [File ''lib/c.js'' (Some (Inr (Text ''let x'')))])]) [] =
     Inr ([fileText ''a.py'' ''print(1)'' @ fileText ''lib/c.js'' ''let x''], [])
   \<and> concat [fileText ''a.py'' ''print(1)'' @ fileText ''lib/c.js'' ''let x''] =
     concat (formatted (file_records_listing default_extensions
       (Listing [File ''a.py'' (Some (Inr (Text ''print(1)''))), File ''b.txt'' (Some (Inr (Text ''note''))),
                 Dir ''lib'' (Listing [File ''lib/c.js'' (Some (Inr (Text ''let x'')))])])))
   \<and> chunkSourceCode (''abcdefgh'' @ [LF] @ [LF] @ ''b'') 1 =
       map run_text [[], [''abcdefgh'']] @ [run_text [[], ''b'']]
   \<and> concat [[], [''abcdefgh'']] @ [[], ''b''] = split_lines (''abcdefgh'' @ [LF] @ [LF] @ ''b'')"
  using chunks_reproduce_corpus [where tk = None and exts = default_extensions and budget = 25000
      and rootResponse = "Listing [File ''a.py'' (Some (Inr (Text ''print(1)''))), File ''b.txt'' (Some (Inr (Text ''note''))),
               Dir ''lib'' (Listing [File ''lib/c.js'' (Some (Inr (Text ''let x'')))])]"
      and lg = "[]" and chunks = "[fileText ''a.py'' ''print(1)'' @ fileText ''lib/c.js'' ''let x'']"
      and lg' = "[]"]
  by (simp add: accepted_def endsWith_def default_extensions_def add_block_def
      countTokens_tiktoken_def fileText_def formatted_def chunkSourceCode_def countTokens_div
      run_text_def)

section \<open>Where chunks are cut\<close>

text \<open>
  C2, as the claim states it, fails for \<open>chunkSourceCode\<close>: it cuts between lines wherever
  the budget runs out. The text of one file whose body is the two lines \<open>abcd\<close> and
  \<open>efgh\<close>, chunked with a budget of 6 tokens, has the header and the first line of the body
  in one chunk and the second line of the body in the next.
\<close>

theorem chunkSourceCode_splits_file:
  "chunkSourceCode (fileText ''a.js'' (''abcd'' @ [LF] @ ''efgh'')) 6 =
     [''=== File: a.js ==='' @ [LF] @ ''abcd'', ''efgh'']"
  by (simp add: chunkSourceCode_def fileText_def countTokens_div)

text \<open>
  C2, amended. For the fetch that chunks while fetching, with any tokenizer, extensions and
  budget: when it returns, the formatted blocks of the FileRecords, in order, can be cut
  into consecutive groups so that each chunk is the concatenation of one group; every
  block, whatever its estimated size, lies whole in exactly one chunk. \<open>chunkSourceCode\<close>
  cuts a text at line feeds only, so a file may be divided between chunks but a line never
  is: the non-empty lines of the chunks, in order, are the non-empty lines of the input.
\<close>

theorem blocks_never_split:
  "(fetch_chunks tk exts budget rootResponse lg = Inr (chunks, lg') \<longrightarrow>
      (\<exists>groups. concat groups = formatted (records_listing exts rootResponse)
         \<and> map concat groups = chunks))
   \<and> concat (map nonempty_lines (chunkSourceCode sourceCode maxTokens)) = nonempty_lines sourceCode"
  using fetch_groups chunkSourceCode_nonempty_lines by blast

theorem blocks_never_split_witness:
  "fetch_chunks None default_extensions 5
     (Listing [File ''a.js'' (Some (Inr (Text ''0123456789abcdefghij''))), File ''b.js'' (Some (Inr (Text ''b'')))]) [] =
     Inr ([[], fileText ''a.js'' ''0123456789abcdefghij'', fileText ''b.js'' ''b''], [])
   \<and> (\<exists>groups. concat groups = [fileText ''a.js'' ''0123456789abcdefghij'', fileText ''b.js'' ''b'']
         \<and> map concat groups = [[], fileText ''a.js'' ''0123456789abcdefghij'', fileText ''b.js'' ''b''])"
  using blocks_never_split [where tk = None and exts = default_extensions and budget = 5
      and rootResponse = "Listing [File ''a.js'' (Some (Inr (Text ''0123456789abcdefghij''))), File ''b.js'' (Some (Inr (Text ''b'')))]"
      and lg = "[]"
      and chunks = "[[], fileText ''a.js'' ''0123456789abcdefghij'', fileText ''b.js'' ''b'']"
      and lg' = "[]"]
  by (simp add: accepted_def endsWith_def default_extensions_def add_block_def
      countTokens_tiktoken_def fileText_def formatted_def)

section \<open>Empty chunks\<close>

text \<open>
  C3. The claim is that no chunk is ever empty. Both chunkers push the current chunk
  without looking whether it is empty, although both look before the final flush. With a
  budget of 1 token, \<open>chunkSourceCode\<close> turns the one-line text \<open>abcdefgh\<close> (2 tokens) into an
  empty chunk followed by the line. With its budget of 25000 tokens and the fallback
  estimator, the fetch that chunks while fetching turns a repository of one file of 100000
  characters into an empty chunk followed by the file's block.
\<close>

theorem empty_chunk_produced:
  "chunkSourceCode ''abcdefgh'' 1 = [[], ''abcdefgh'']
   \<and> fetchAllRepoContents_chunked None default_extensions
       (Listing [File ''big.js'' (Some (Inr (Text (replicate 100000 CHR ''x''))))]) =
     Inr ([[], fileText ''big.js'' (replicate 100000 CHR ''x'')], [])"
  by (simp add: chunkSourceCode_def countTokens_div fetchAllRepoContents_chunked_def
      accepted_def endsWith_def default_extensions_def add_block_def countTokens_tiktoken_def
      fileText_def)

section \<open>The budget of a chunk\<close>

text \<open>
  C4, as the claim states it, fails for \<open>chunkSourceCode\<close>, which adds the estimate of the
  line to the estimate of the current chunk and leaves the joining line feed out. The text
  of two files, blocks of 7 and 6 tokens, chunked with a budget of 11 tokens, has a first
  chunk of 12 tokens that holds the first block and the header of the second.
\<close>

theorem chunkSourceCode_exceeds_budget:
  "chunkSourceCode (fileText ''abc.js'' ''abc'' @ fileText ''xyz.js'' ''x'') 11 =
     [''=== File: abc.js ==='' @ [LF] @ ''abc'' @ [LF] @ ''=== File: xyz.js ==='', ''x'']
   \<and> countTokens (''=== File: abc.js ==='' @ [LF] @ ''abc'' @ [LF] @ ''=== File: xyz.js ==='') = 12
   \<and> countTokens (fileText ''abc.js'' ''abc'') = 7
   \<and> countTokens (fileText ''xyz.js'' ''x'') = 6"
  by (simp add: chunkSourceCode_def fileText_def countTokens_div)

text \<open>
  C4, amended. For the fetch that chunks while fetching, with any tokenizer and any budget
  that the estimate of the empty string does not exceed: when it returns, every chunk is
  within the budget by the estimator the walker uses, or is the formatted block of a single
  FileRecord. For \<open>chunkSourceCode\<close> with a budget that is not negative: every chunk is
  estimated at most one token above the budget, or is a single line of the input.
\<close>

theorem chunk_budget_bound:
  "(countTokens_tiktoken tk [] \<le> budget \<and>
      fetch_chunks tk exts budget rootResponse lg = Inr (chunks, lg') \<longrightarrow>
      (\<forall>c \<in> set chunks. countTokens_tiktoken tk c \<le> budget
          \<or> c \<in> set (formatted (records_listing exts rootResponse))))
   \<and> (0 \<le> maxTokens \<longrightarrow>
      (\<forall>c \<in> set (chunkSourceCode sourceCode maxTokens).
          countTokens c \<le> maxTokens + 1 \<or> c \<in> set (split_lines sourceCode)))"
  using fetch_budget chunkSourceCode_budget by blast

theorem chunk_budget_bound_witness:
  "countTokens_tiktoken None [] \<le> 5
   \<and> fetch_chunks None default_extensions 5
       (Listing [File ''a.js'' (Some (Inr (Text ''0123456789abcdefghij''))), File ''b.js'' (Some (Inr (Text ''b'')))]) [] =
     Inr ([[], fileText ''a.js'' ''0123456789abcdefghij'', fileText ''b.js'' ''b''], [])
   \<and> countTokens_tiktoken None (fileText ''a.js'' ''0123456789abcdefghij'') = 10
   \<and> fileText ''a.js'' ''0123456789abcdefghij'' \<in> set (formatted (records_listing default_extensions
       (Listing [File ''a.js'' (Some (Inr (Text ''0123456789abcdefghij''))), File ''b.js'' (Some (Inr (Text ''b'')))])))
   \<and> (0::int) \<le> 11
   \<and> countTokens (hd (chunkSourceCode (fileText ''abc.js'' ''abc'' @ fileText ''xyz.js'' ''x'') 11)) \<le> 11 + 1"
  using chunk_budget_bound [where tk = None and exts = default_extensions and budget = 5
      and rootResponse = "Listing [File ''a.js'' (Some (Inr (Text ''0123456789abcdefghij''))), File ''b.js'' (Some (Inr (Text ''b'')))]"
      and lg = "[]"
      and chunks = "[[], fileText ''a.js'' ''0123456789abcdefghij'', fileText ''b.js'' ''b'']"
      and lg' = "[]" and maxTokens = 11
      and sourceCode = "fileText ''abc.js'' ''abc'' @ fileText ''xyz.js'' ''x''"]
  by (simp add: accepted_def endsWith_def default_extensions_def add_block_def
      countTokens_tiktoken_def fileText_def formatted_def chunkSourceCode_def countTokens_div)

section \<open>Descent into subdirectories\<close>

text \<open>
  C6. The claim is that every directory entry of a listing is walked in its turn. The
  worker's \<open>fetchDirContents\<close> has no branch for directories: started on a directory whose
  only entry is the subdirectory \<open>lib/sub\<close> holding \<open>lib/sub/c.js\<close>, it posts the empty
  string. The fetch that chunks while fetching does descend: on the same tree below the
  root it returns the block of \<open>lib/sub/c.js\<close>.
\<close>

theorem worker_ignores_subdirectories:
  "fetchDirContents 2 default_extensions
     (\<lambda>page. if page = 1
        then Listing [Dir ''lib/sub'' (Listing [File ''lib/sub/c.js'' (Some (Inr (Text ''x'')))])]
        else Listing []) = Some (PostedString [])
   \<and> fetchAllRepoContents_chunked None default_extensions
       (Listing [Dir ''lib'' (Listing [Dir ''lib/sub'' (Listing [File ''lib/sub/c.js'' (Some (Inr (Text ''x'')))])])]) =
     Inr ([fileText ''lib/sub/c.js'' ''x''], [])"
  by (simp add: fetchDirContents_def numeral_2_eq_2 fetchAllRepoContents_chunked_def
      accepted_def endsWith_def default_extensions_def add_block_def countTokens_tiktoken_def
      fileText_def)

section \<open>Failures during the coordinated fetch\<close>




section \<open>Oversized files\<close>

text \<open>
  C8. The claim is that every file of more than 500000 characters is skipped. The three
  loops test the \<open>length\<close> of what the download hands over, which is the text of the file
  only when the text does not parse as JSON. The file \<open>data.js\<close> below has 600000
  characters, the text \<open>[1, 1, ..., 1]\<close> of an array of 200000 elements; it reaches the loops
  as that array, whose \<open>length\<close> is 200000, and is not skipped: the root loop of the
  coordinator writes its block, the worker collects it, and the fetch that chunks while
  fetching returns it as a chunk. A file of 600000 characters that do not parse is
  skipped with the warning.
\<close>

theorem oversized_json_file_not_skipped:
  "length (''['' @ concat (replicate 199999 ''1, '') @ ''1]'') = 600000
   \<and> write_root default_extensions
       [File ''data.js'' (Some (Inr (Json (''['' @ concat (replicate 199999 ''1, '') @ ''1]'')
          (JArray 200000 (concat (replicate 199999 ''1,'') @ ''1'')))))] ([], []) =
     Inr (fileText ''data.js'' (concat (replicate 199999 ''1,'') @ ''1''), [])
   \<and> page_items default_extensions
       [File ''data.js'' (Some (Inr (Json (''['' @ concat (replicate 199999 ''1, '') @ ''1]'')
          (JArray 200000 (concat (replicate 199999 ''1,'') @ ''1'')))))] ([], []) =
     Inr ([fileText ''data.js'' (concat (replicate 199999 ''1,'') @ ''1'')], [])
   \<and> fetchAllRepoContents_chunked None default_extensions
       (Listing [File ''data.js'' (Some (Inr (Json (''['' @ concat (replicate 199999 ''1, '') @ ''1]'')
          (JArray 200000 (concat (replicate 199999 ''1,'') @ ''1'')))))]) =
     Inr ([[], fileText ''data.js'' (concat (replicate 199999 ''1,'') @ ''1'')], [])
   \<and> write_root default_extensions
       [File ''big.js'' (Some (Inr (Text (replicate 600000 CHR ''a''))))] ([], []) =
     Inr ([], [SkippedLargeFile ''big.js''])"
  by (simp add: length_concat sum_list_replicate accepted_def endsWith_def default_extensions_def
      fetchAllRepoContents_chunked_def add_block_def countTokens_tiktoken_def fileText_def)

end
